theory Spec2Isabelle
  imports Main "HOL-Library.Word"
begin

section \<open>Go values\<close>

text \<open>
  A Go \<^verbatim>\<open>string\<close> is a sequence of bytes: \<^typ>\<open>string\<close>, one \<^typ>\<open>char\<close> per byte, a code
  point beyond ASCII being the bytes of its UTF-8 encoding. A Go \<^verbatim>\<open>int\<close> is a 64-bit
  two's complement integer: a \<^typ>\<open>64 word\<close> read through \<^const>\<open>sint\<close>.
\<close>

type_synonym go_int = "64 word"

text \<open>
  A slice is \<^verbatim>\<open>nil\<close> or holds elements; an empty slice that is not \<^verbatim>\<open>nil\<close> exists
  (\<^verbatim>\<open>[]T{}\<close>) and the JSON encoder tells the two apart.
\<close>

datatype 'a slice = NilSlice | Slice "'a list"

fun elems :: "'a slice \<Rightarrow> 'a list" where
  "elems NilSlice = []"
| "elems (Slice xs) = xs"

text \<open>\<^verbatim>\<open>append(s, x)\<close>: the result is never \<^verbatim>\<open>nil\<close>.\<close>

definition go_append :: "'a slice \<Rightarrow> 'a \<Rightarrow> 'a slice" where
  "go_append s x = Slice (elems s @ [x])"

text \<open>\<^verbatim>\<open>append(s, t...)\<close>: with nothing to add, \<^verbatim>\<open>s\<close> comes back as it is, \<^verbatim>\<open>nil\<close> included.\<close>

definition go_append_all :: "'a slice \<Rightarrow> 'a slice \<Rightarrow> 'a slice" where
  "go_append_all s t = (if elems t = [] then s else Slice (elems s @ elems t))"

section \<open>The string functions of the standard library\<close>

definition byte :: "char \<Rightarrow> nat" where
  "byte c = of_char c"

text \<open>
  \<^verbatim>\<open>unicode.IsSpace\<close> holds of U+0009..U+000D, U+0020, U+0085, U+00A0, U+1680,
  U+2000..U+200A, U+2028, U+2029, U+202F, U+205F and U+3000. On bytes these are the one-byte
  characters of \<open>asciiSpace\<close> and the two-byte and three-byte UTF-8 encodings below.
\<close>

definition asciiSpace :: "char \<Rightarrow> bool" where
  "asciiSpace c = (byte c = 0x09 \<or> byte c = 0x0A \<or> byte c = 0x0B \<or> byte c = 0x0C
     \<or> byte c = 0x0D \<or> byte c = 0x20)"

definition space2 :: "char \<Rightarrow> char \<Rightarrow> bool" where
  "space2 a b = (byte a = 0xC2 \<and> (byte b = 0x85 \<or> byte b = 0xA0))"

definition space3 :: "char \<Rightarrow> char \<Rightarrow> char \<Rightarrow> bool" where
  "space3 a b c =
     ((byte a = 0xE1 \<and> byte b = 0x9A \<and> byte c = 0x80)
    \<or> (byte a = 0xE2 \<and> byte b = 0x80 \<and>
         ((0x80 \<le> byte c \<and> byte c \<le> 0x8A) \<or> byte c = 0xA8 \<or> byte c = 0xA9 \<or> byte c = 0xAF))
    \<or> (byte a = 0xE2 \<and> byte b = 0x81 \<and> byte c = 0x9F)
    \<or> (byte a = 0xE3 \<and> byte b = 0x80 \<and> byte c = 0x80))"

text \<open>
  Dropping leading characters, each one, two or three bytes long. \<^verbatim>\<open>strings.TrimSpace\<close>
  decodes one character at a time from the left end, then from the right end, and stops at
  the first that is not white space.
\<close>

fun trimBy :: "(char \<Rightarrow> bool) \<Rightarrow> (char \<Rightarrow> char \<Rightarrow> bool) \<Rightarrow> (char \<Rightarrow> char \<Rightarrow> char \<Rightarrow> bool)
    \<Rightarrow> string \<Rightarrow> string" where
  "trimBy p1 p2 p3 (a # b # c # s) =
     (if p1 a then trimBy p1 p2 p3 (b # c # s)
      else if p2 a b then trimBy p1 p2 p3 (c # s)
      else if p3 a b c then trimBy p1 p2 p3 s
      else a # b # c # s)"
| "trimBy p1 p2 p3 [a, b] =
     (if p1 a then trimBy p1 p2 p3 [b] else if p2 a b then [] else [a, b])"
| "trimBy p1 p2 p3 [a] = (if p1 a then [] else [a])"
| "trimBy p1 p2 p3 [] = []"

definition TrimLeftSpace :: "string \<Rightarrow> string" where
  "TrimLeftSpace s = trimBy asciiSpace space2 space3 s"

definition TrimRightSpace :: "string \<Rightarrow> string" where
  "TrimRightSpace s =
     rev (trimBy asciiSpace (\<lambda>b a. space2 a b) (\<lambda>c b a. space3 a b c) (rev s))"

definition TrimSpace :: "string \<Rightarrow> string" where
  "TrimSpace s = TrimRightSpace (TrimLeftSpace s)"

fun HasPrefix :: "string \<Rightarrow> string \<Rightarrow> bool" where
  "HasPrefix s [] = True"
| "HasPrefix [] (p # ps) = False"
| "HasPrefix (c # cs) (p # ps) = (c = p \<and> HasPrefix cs ps)"

definition TrimPrefix :: "string \<Rightarrow> string \<Rightarrow> string" where
  "TrimPrefix s p = (if HasPrefix s p then drop (length p) s else s)"

fun Join :: "string list \<Rightarrow> string \<Rightarrow> string" where
  "Join [] sep = []"
| "Join [x] sep = x"
| "Join (x # y # ys) sep = x @ sep @ Join (y # ys) sep"

section \<open>The symbol tree\<close>

text \<open>
  The declarations of package \<^verbatim>\<open>lsp\<close> are the protocol's: a position, a range, and a
  document symbol with its children. The numbers of the symbol kinds are taken as a
  parameter: every result below holds whatever they are.
\<close>

record Position =
  Line :: go_int
  Character :: go_int

record Range =
  Start :: Position
  End :: Position

datatype DocumentSymbol =
  DocumentSymbol (Name: string) (Detail: string) (Kind: go_int) (Range: Range)
    (Children: "DocumentSymbol list")

record SymbolKinds =
  SymbolKindFunction :: go_int
  SymbolKindMethod :: go_int
  SymbolKindClass :: go_int
  SymbolKindStruct :: go_int
  SymbolKindConstructor :: go_int
  SymbolKindEnum :: go_int
  SymbolKindInterface :: go_int
  SymbolKindNamespace :: go_int

section \<open>Docstrings and snippets\<close>

text \<open>
  The loop of \<^verbatim>\<open>extractDocstring\<close>: \<^verbatim>\<open>for i := startLine - 1; i >= 0 && i < len(fileLines); i--\<close>,
  with \<^verbatim>\<open>docLines\<close> carried along. \<^verbatim>\<open>continue\<close> goes on with \<open>i - 1\<close>, \<^verbatim>\<open>break\<close> leaves.
\<close>

function docLoop :: "string list \<Rightarrow> go_int \<Rightarrow> string list \<Rightarrow> string list" where
  "docLoop fileLines i docLines =
     (if 0 \<le> sint i \<and> sint i < int (length fileLines) then
        (let line = TrimSpace (fileLines ! nat (sint i)) in
         if HasPrefix line ''///'' then
           docLoop fileLines (i - 1) (TrimSpace (TrimPrefix line ''///'') # docLines)
         else if HasPrefix line ''//!'' then
           docLoop fileLines (i - 1) (TrimSpace (TrimPrefix line ''//!'') # docLines)
         else if line = [] then docLoop fileLines (i - 1) docLines
         else docLines)
      else docLines)"
  by pat_completeness auto

lemma sint_pred: "0 \<le> sint (i :: go_int) \<Longrightarrow> sint (i - 1) = sint i - 1"
proof -
  assume nonneg: "0 \<le> sint i"
  have upper: "sint i < 2 ^ 63"
    using sint_lt [of i] by simp
  have "sint (i - 1) = signed_take_bit 63 (sint i - 1)"
    by (simp add: sint_word_ariths)
  also have "\<dots> = sint i - 1"
    using nonneg upper by (intro signed_take_bit_int_eq_self) simp_all
  finally show ?thesis .
qed

termination docLoop
  by (relation "measure (\<lambda>(fileLines, i, docLines). nat (sint i + 1))")
    (simp_all add: sint_pred)

declare docLoop.simps [simp del]

definition extractDocstring :: "DocumentSymbol \<Rightarrow> string list \<Rightarrow> string" where
  "extractDocstring symbol fileLines =
     (let startLine = Line (Start (Range symbol)) in
      if startLine = 0 \<or> sint startLine > int (length fileLines) then []
      else Join (docLoop fileLines (startLine - 1) []) '' '')"

text \<open>
  \<^verbatim>\<open>fileLines[start:end+1]\<close> is read only when \<open>0 \<le> start \<le> end < len(fileLines)\<close>,
  where it cannot panic.
\<close>

definition extractSnippet :: "Range \<Rightarrow> string list \<Rightarrow> string" where
  "extractSnippet rng fileLines =
     (let start = Line (Start rng); end = Line (End rng) in
      if sint start < 0 \<or> sint end \<ge> int (length fileLines) \<or> sint start > sint end then []
      else Join (take (nat (sint (end + 1)) - nat (sint start)) (drop (nat (sint start)) fileLines))
             [CHR 0x0A])"

section \<open>Flattening the symbol tree\<close>

text \<open>
  The chunk of package \<^verbatim>\<open>parser\<close>. Its fields \<^verbatim>\<open>Name\<close> and \<^verbatim>\<open>Line\<close> are \<open>ChunkName\<close> and
  \<open>ChunkLine\<close> here, the plain names being those of the symbol and of the position.
\<close>

record ChunkContext =
  Module :: string
  FilePath :: string
  FileName :: string
  StructName :: string
  Snippet :: string

record SemanticChunk =
  ChunkName :: string
  Signature :: string
  CodeType :: string
  Docstring :: string
  ChunkLine :: go_int
  LineFrom :: go_int
  LineTo :: go_int
  Context :: ChunkContext

text \<open>
  What the flattener takes from the operating system and from \<^verbatim>\<open>path/filepath\<close>, as a
  parameter: \<open>ScanLines p\<close> is \<open>None\<close> when \<^verbatim>\<open>os.Open\<close> fails on \<open>p\<close> and otherwise the lines
  \<^verbatim>\<open>bufio.Scanner\<close> yields; \<open>Dir\<close> and \<open>Base\<close> are \<^verbatim>\<open>filepath.Dir\<close> and \<^verbatim>\<open>filepath.Base\<close>.
\<close>

record Platform =
  ScanLines :: "string \<Rightarrow> string list option"
  Dir :: "string \<Rightarrow> string"
  Base :: "string \<Rightarrow> string"

definition readFileLines :: "Platform \<Rightarrow> string \<Rightarrow> string list" where
  "readFileLines P filePath =
     (case ScanLines P filePath of None \<Rightarrow> [] | Some lines \<Rightarrow> lines)"

text \<open>\<^verbatim>\<open>strings.Split(s, sep)\<close> for a separator of one byte: at least one part comes back.\<close>

fun SplitByte :: "string \<Rightarrow> char \<Rightarrow> string list" where
  "SplitByte [] sep = [[]]"
| "SplitByte (c # cs) sep =
     (if c = sep then [] # SplitByte cs sep
      else (case SplitByte cs sep of [] \<Rightarrow> [[c]] | part # parts \<Rightarrow> (c # part) # parts))"

definition extractModule :: "Platform \<Rightarrow> string \<Rightarrow> string" where
  "extractModule P filePath =
     (let dir = Dir P filePath; parts = SplitByte dir (CHR ''/'') in
      if length parts > 0 then last parts else [])"

definition shouldExtractSymbol :: "SymbolKinds \<Rightarrow> go_int \<Rightarrow> bool" where
  "shouldExtractSymbol K kind =
     (kind = SymbolKindFunction K \<or>
      kind = SymbolKindMethod K \<or>
      kind = SymbolKindClass K \<or>
      kind = SymbolKindStruct K \<or>
      kind = SymbolKindConstructor K \<or>
      kind = SymbolKindEnum K \<or>
      kind = SymbolKindInterface K \<or>
      kind = SymbolKindNamespace K)"

text \<open>The map literal of \<^verbatim>\<open>symbolKindToString\<close>, its keys being distinct constants.\<close>

definition symbolKindToString :: "SymbolKinds \<Rightarrow> go_int \<Rightarrow> string" where
  "symbolKindToString K kind =
     (case map_of
        [(SymbolKindFunction K, ''Function''),
         (SymbolKindMethod K, ''Method''),
         (SymbolKindClass K, ''Class''),
         (SymbolKindStruct K, ''Struct''),
         (SymbolKindConstructor K, ''Constructor''),
         (SymbolKindEnum K, ''Enum''),
         (SymbolKindInterface K, ''Interface''),
         (SymbolKindNamespace K, ''Namespace'')] kind of
        Some name \<Rightarrow> name
      | None \<Rightarrow> ''Unknown'')"

definition getSignature :: "DocumentSymbol \<Rightarrow> string" where
  "getSignature symbol = (if Detail symbol \<noteq> [] then Detail symbol else Name symbol)"

text \<open>The composite literal of \<^verbatim>\<open>processSymbol\<close>.\<close>

definition makeChunk ::
  "Platform \<Rightarrow> SymbolKinds \<Rightarrow> DocumentSymbol \<Rightarrow> string \<Rightarrow> string list \<Rightarrow> string \<Rightarrow> SemanticChunk" where
  "makeChunk P K symbol filePath fileLines parentStruct =
     \<lparr>ChunkName = Name symbol,
      Signature = getSignature symbol,
      CodeType = symbolKindToString K (Kind symbol),
      Docstring = extractDocstring symbol fileLines,
      ChunkLine = Line (Start (Range symbol)) + 1,
      LineFrom = Line (Start (Range symbol)) + 1,
      LineTo = Line (End (Range symbol)) + 1,
      Context =
        \<lparr>Module = extractModule P filePath,
         FilePath = filePath,
         FileName = Base P filePath,
         StructName = parentStruct,
         Snippet = extractSnippet (Range symbol) fileLines\<rparr>\<rparr>"

text \<open>
  \<^verbatim>\<open>processSymbol\<close> appends to \<^verbatim>\<open>*chunks\<close>: the slice goes in and comes out. \<open>processChildren\<close> is
  its loop over \<^verbatim>\<open>symbol.Children\<close>.
\<close>

fun processSymbol ::
  "Platform \<Rightarrow> SymbolKinds \<Rightarrow> DocumentSymbol \<Rightarrow> string \<Rightarrow> string list \<Rightarrow> string
    \<Rightarrow> SemanticChunk slice \<Rightarrow> SemanticChunk slice"
and processChildren ::
  "Platform \<Rightarrow> SymbolKinds \<Rightarrow> DocumentSymbol list \<Rightarrow> string \<Rightarrow> string list \<Rightarrow> string
    \<Rightarrow> SemanticChunk slice \<Rightarrow> SemanticChunk slice" where
  "processSymbol P K (DocumentSymbol name detail kind rng children) filePath fileLines
      parentStruct chunks =
     (if shouldExtractSymbol K kind then
        processChildren P K children filePath fileLines
          (if kind = SymbolKindClass K \<or> kind = SymbolKindStruct K then name else parentStruct)
          (go_append chunks
            (makeChunk P K (DocumentSymbol name detail kind rng children) filePath fileLines
              parentStruct))
      else processChildren P K children filePath fileLines parentStruct chunks)"
| "processChildren P K [] filePath fileLines parentStruct chunks = chunks"
| "processChildren P K (child # rest) filePath fileLines parentStruct chunks =
     processChildren P K rest filePath fileLines parentStruct
       (processSymbol P K child filePath fileLines parentStruct chunks)"

text \<open>\<^verbatim>\<open>var chunks []SemanticChunk\<close> is \<^verbatim>\<open>nil\<close> until the first \<^verbatim>\<open>append\<close>.\<close>

definition ConvertSymbolsToChunks ::
  "Platform \<Rightarrow> SymbolKinds \<Rightarrow> DocumentSymbol list \<Rightarrow> string \<Rightarrow> SemanticChunk slice" where
  "ConvertSymbolsToChunks P K symbols filePath =
     (let fileLines = readFileLines P filePath in
      foldl (\<lambda>chunks symbol. processSymbol P K symbol filePath fileLines [] chunks)
        NilSlice symbols)"

subsection \<open>The tree, as the specification reads it\<close>

text \<open>The nodes of a tree in pre-order, each with its ancestors, the nearest first.\<close>

fun walk :: "DocumentSymbol list \<Rightarrow> DocumentSymbol \<Rightarrow> (DocumentSymbol list \<times> DocumentSymbol) list" where
  "walk ancestors (DocumentSymbol name detail kind rng children) =
     (ancestors, DocumentSymbol name detail kind rng children)
     # concat (map (walk (DocumentSymbol name detail kind rng children # ancestors)) children)"

fun preorder :: "DocumentSymbol \<Rightarrow> DocumentSymbol list" where
  "preorder (DocumentSymbol name detail kind rng children) =
     DocumentSymbol name detail kind rng children # concat (map preorder children)"

text \<open>The number of nodes of a tree, at any depth, that satisfy \<open>p\<close>.\<close>

fun countNodes :: "(DocumentSymbol \<Rightarrow> bool) \<Rightarrow> DocumentSymbol \<Rightarrow> nat" where
  "countNodes p (DocumentSymbol name detail kind rng children) =
     (if p (DocumentSymbol name detail kind rng children) then 1 else 0)
     + sum_list (map (countNodes p) children)"

text \<open>The name of the nearest ancestor that is a class or a struct, empty when there is none.\<close>

definition enclosingStruct :: "SymbolKinds \<Rightarrow> DocumentSymbol list \<Rightarrow> string" where
  "enclosingStruct K ancestors =
     (case find (\<lambda>a. Kind a = SymbolKindClass K \<or> Kind a = SymbolKindStruct K) ancestors of
        None \<Rightarrow> []
      | Some a \<Rightarrow> Name a)"

text \<open>The nodes that are extracted, and the chunk of a node under its ancestors.\<close>

definition extracted :: "SymbolKinds \<Rightarrow> (DocumentSymbol list \<times> DocumentSymbol) list
    \<Rightarrow> (DocumentSymbol list \<times> DocumentSymbol) list" where
  "extracted K nodes = filter (\<lambda>(ancestors, symbol). shouldExtractSymbol K (Kind symbol)) nodes"

definition chunkAt ::
  "Platform \<Rightarrow> SymbolKinds \<Rightarrow> string \<Rightarrow> string list \<Rightarrow> DocumentSymbol list \<times> DocumentSymbol
    \<Rightarrow> SemanticChunk" where
  "chunkAt P K filePath fileLines = (\<lambda>(ancestors, symbol).
     makeChunk P K symbol filePath fileLines (enclosingStruct K ancestors))"

text \<open>The numbers the protocol gives the kinds, for the examples.\<close>

definition lspKinds :: SymbolKinds where
  "lspKinds =
     \<lparr>SymbolKindFunction = 12, SymbolKindMethod = 6, SymbolKindClass = 5, SymbolKindStruct = 23,
      SymbolKindConstructor = 9, SymbolKindEnum = 10, SymbolKindInterface = 11,
      SymbolKindNamespace = 3\<rparr>"

text \<open>A platform on which no file can be opened, and a small tree, for the examples.\<close>

definition noFiles :: Platform where
  "noFiles = \<lparr>ScanLines = (\<lambda>p. None), Dir = (\<lambda>p. ''src''), Base = (\<lambda>p. ''a.cpp'')\<rparr>"

definition nowhere :: Range where
  "nowhere = \<lparr>Start = \<lparr>Line = 0, Character = 0\<rparr>, End = \<lparr>Line = 0, Character = 0\<rparr>\<rparr>"

definition exampleTree :: "DocumentSymbol list" where
  "exampleTree =
     [DocumentSymbol ''v'' [] 13 nowhere [DocumentSymbol ''f'' [] 12 nowhere []],
      DocumentSymbol ''C'' [] 5 nowhere
        [DocumentSymbol ''x'' [] 8 nowhere [],
         DocumentSymbol ''N'' [] 3 nowhere [DocumentSymbol ''m'' [] 6 nowhere []]],
      DocumentSymbol ''u'' [] 999 nowhere [DocumentSymbol ''S'' [] 23 nowhere []]]"

section \<open>Views: package nl\<close>

subsection \<open>Library functions\<close>

text \<open>
  \<^verbatim>\<open>strings.NewReplacer("::", " ", "->", " ", ".", " ").Replace\<close>: from left to right, each
  \<^verbatim>\<open>::\<close>, \<^verbatim>\<open>->\<close> and \<^verbatim>\<open>.\<close> becomes one space, matches not overlapping.
\<close>

fun repl_Replace :: "string \<Rightarrow> string" where
  "repl_Replace (a # b # s) =
     (if a = CHR '':'' \<and> b = CHR '':'' then CHR '' '' # repl_Replace s
      else if a = CHR ''-'' \<and> b = CHR ''>'' then CHR '' '' # repl_Replace s
      else if a = CHR ''.'' then CHR '' '' # repl_Replace (b # s)
      else a # repl_Replace (b # s))"
| "repl_Replace [a] = (if a = CHR ''.'' then '' '' else [a])"
| "repl_Replace [] = []"

text \<open>
  The class \<^verbatim>\<open>[A-Za-z0-9_]\<close>. Its complement \<^verbatim>\<open>[^A-Za-z0-9_]\<close>, which is also \<^verbatim>\<open>\W\<close>, matches
  every other character, and so every byte of a character beyond ASCII (and every byte that
  is no part of a valid encoding).
\<close>

definition isWord :: "char \<Rightarrow> bool" where
  "isWord c = ((0x41 \<le> byte c \<and> byte c \<le> 0x5A) \<or> (0x61 \<le> byte c \<and> byte c \<le> 0x7A)
     \<or> (0x30 \<le> byte c \<and> byte c \<le> 0x39) \<or> byte c = 0x5F)"

definition nonWord :: "char \<Rightarrow> bool" where
  "nonWord c = (\<not> isWord c)"

text \<open>
  \<^verbatim>\<open>re.Split(s, -1)\<close> for an expression \<^verbatim>\<open>[...]+\<close>: the pieces of \<open>s\<close> between the maximal runs
  of separator bytes, the empty piece before a leading run and after a trailing run included.
\<close>

function re_Split :: "(char \<Rightarrow> bool) \<Rightarrow> string \<Rightarrow> string list" where
  "re_Split sep s =
     (let piece = takeWhile (\<lambda>c. \<not> sep c) s; rest = dropWhile (\<lambda>c. \<not> sep c) s in
      if rest = [] then [piece] else piece # re_Split sep (dropWhile sep rest))"
  by pat_completeness auto

lemma dropWhile_run_shorter:
  assumes "dropWhile (\<lambda>c. \<not> sep c) s \<noteq> []"
  shows "length (dropWhile sep (dropWhile (\<lambda>c. \<not> sep c) s)) < length s"
proof -
  obtain c cs where rest: "dropWhile (\<lambda>c. \<not> sep c) s = c # cs"
    using assms by (cases "dropWhile (\<lambda>c. \<not> sep c) s") auto
  then have "sep c"
    using hd_dropWhile [of "\<lambda>c. \<not> sep c" s] by auto
  then have "length (dropWhile sep (c # cs)) \<le> length cs"
    by (simp add: length_dropWhile_le)
  moreover have "length (c # cs) \<le> length s"
    using length_dropWhile_le [of "\<lambda>c. \<not> sep c" s] rest by simp
  ultimately show ?thesis
    using rest by simp
qed

termination re_Split
  by (relation "measure (\<lambda>(sep, s). length s)") (simp_all add: dropWhile_run_shorter)

declare re_Split.simps [simp del]

definition filterEmpty :: "string list \<Rightarrow> string list" where
  "filterEmpty xs = filter (\<lambda>v. v \<noteq> []) xs"

definition splitAlphaNum :: "string \<Rightarrow> string list" where
  "splitAlphaNum s = filterEmpty (re_Split nonWord s)"

text \<open>
  \<^verbatim>\<open>strings.FieldsFunc(s, f)\<close>: the maximal runs of characters that do not satisfy \<open>f\<close>, none of
  them empty. \<open>field\<close> is the run being read.
\<close>

fun fieldsFrom :: "(char \<Rightarrow> bool) \<Rightarrow> string \<Rightarrow> string \<Rightarrow> string list" where
  "fieldsFrom f field [] = (if field = [] then [] else [field])"
| "fieldsFrom f field (c # cs) =
     (if f c then (if field = [] then fieldsFrom f [] cs else field # fieldsFrom f [] cs)
      else fieldsFrom f (field @ [c]) cs)"

definition FieldsFunc :: "string \<Rightarrow> (char \<Rightarrow> bool) \<Rightarrow> string list" where
  "FieldsFunc s f = fieldsFrom f [] s"

text \<open>
  What the Unicode tables decide, as a parameter: \<^verbatim>\<open>strings.ToLower\<close> and \<^verbatim>\<open>camelcase.Split\<close> on a
  string with a byte beyond ASCII. On an ASCII string both are written out below.
\<close>

record Unicode =
  ToLowerUnicode :: "string \<Rightarrow> string"
  SplitUnicode :: "string \<Rightarrow> string list"

definition isASCII :: "char \<Rightarrow> bool" where
  "isASCII c = (byte c < 0x80)"

definition isUpper :: "char \<Rightarrow> bool" where
  "isUpper c = (0x41 \<le> byte c \<and> byte c \<le> 0x5A)"

definition isLower :: "char \<Rightarrow> bool" where
  "isLower c = (0x61 \<le> byte c \<and> byte c \<le> 0x7A)"

definition isDigit :: "char \<Rightarrow> bool" where
  "isDigit c = (0x30 \<le> byte c \<and> byte c \<le> 0x39)"

definition lowerByte :: "char \<Rightarrow> char" where
  "lowerByte c = (if isUpper c then char_of (byte c + 0x20) else c)"

definition ToLower :: "Unicode \<Rightarrow> string \<Rightarrow> string" where
  "ToLower U s =
     (if list_all isASCII s then (if list_ex isUpper s then map lowerByte s else s)
      else ToLowerUnicode U s)"

subsection \<open>The camel-case splitter\<close>

text \<open>
  \<^verbatim>\<open>camelcase.Split\<close> of \<^verbatim>\<open>github.com/fatih/camelcase\<close>. Its first loop cuts the string where the
  class of the character changes (lower case, upper case, digit, other); \<open>lastClass\<close> starts
  at 0, which is no class.
\<close>

definition classOf :: "char \<Rightarrow> nat" where
  "classOf r = (if isLower r then 1 else if isUpper r then 2 else if isDigit r then 3 else 4)"

fun classLoop :: "nat \<Rightarrow> string list \<Rightarrow> string \<Rightarrow> string list" where
  "classLoop lastClass runes [] = runes"
| "classLoop lastClass runes (r # rs) =
     (if classOf r = lastClass then classLoop (classOf r) (butlast runes @ [last runes @ [r]]) rs
      else classLoop (classOf r) (runes @ [[r]]) rs)"

text \<open>
  Its second loop, \<^verbatim>\<open>for i := 0; i < len(runes)-1; i++\<close>, moves the last upper-case letter of a
  run to the lower-case run that follows it.
\<close>

function upperLowerLoop :: "nat \<Rightarrow> string list \<Rightarrow> string list" where
  "upperLowerLoop i runes =
     (if i + 1 < length runes then
        (if isUpper (hd (runes ! i)) \<and> isLower (hd (runes ! (i + 1))) then
           upperLowerLoop (i + 1)
             (runes[i + 1 := last (runes ! i) # runes ! (i + 1), i := butlast (runes ! i)])
         else upperLowerLoop (i + 1) runes)
      else runes)"
  by pat_completeness auto

termination upperLowerLoop
  by (relation "measure (\<lambda>(i, runes). length runes - i)") simp_all

declare upperLowerLoop.simps [simp del]

definition camelcase_Split :: "Unicode \<Rightarrow> string \<Rightarrow> string list" where
  "camelcase_Split U src =
     (if list_all isASCII src then
        filter (\<lambda>s. length s > 0) (upperLowerLoop 0 (classLoop 0 [] src))
      else SplitUnicode U src)"

subsection \<open>Tokens and views\<close>

text \<open>The closure \<^verbatim>\<open>add\<close> of \<^verbatim>\<open>Subtokenize\<close>, on the pair of \<^verbatim>\<open>seen\<close> and \<^verbatim>\<open>out\<close> it updates.\<close>

definition add :: "string set \<times> string list \<Rightarrow> string \<Rightarrow> string set \<times> string list" where
  "add st t =
     (if t = [] then st
      else if t \<in> fst st then st
      else (insert t (fst st), snd st @ [t]))"

definition addParts :: "Unicode \<Rightarrow> string set \<times> string list \<Rightarrow> string list
    \<Rightarrow> string set \<times> string list" where
  "addParts U st parts = foldl (\<lambda>st p. add (add st p) (ToLower U p)) st parts"

definition addFields :: "Unicode \<Rightarrow> string set \<times> string list \<Rightarrow> string list
    \<Rightarrow> string set \<times> string list" where
  "addFields U st us =
     foldl (\<lambda>st u. if u = [] then st else addParts U st (camelcase_Split U u)) st us"

definition addTokens :: "Unicode \<Rightarrow> string set \<times> string list \<Rightarrow> string list
    \<Rightarrow> string set \<times> string list" where
  "addTokens U st rawTokens =
     foldl (\<lambda>st tok. addFields U (add (add st tok) (ToLower U tok))
         (FieldsFunc tok (\<lambda>r. r = CHR ''_'')))
       st rawTokens"

definition Subtokenize :: "Unicode \<Rightarrow> string \<Rightarrow> string slice" where
  "Subtokenize U s =
     (if s = [] then NilSlice
      else Slice (snd (addTokens U ({}, []) (splitAlphaNum (repl_Replace s)))))"

definition Humanize :: "string \<Rightarrow> string" where
  "Humanize s =
     (if s = [] then s
      else Join (filterEmpty (map TrimSpace (splitAlphaNum (repl_Replace s)))) '' '')"

definition TokenizeForText :: "string \<Rightarrow> string" where
  "TokenizeForText s = Join (filterEmpty (re_Split nonWord s)) '' ''"

record Views =
  TextView :: string
  CodeView :: string
  IdentTokens :: "string slice"

definition BuildViews :: "Unicode \<Rightarrow> SemanticChunk \<Rightarrow> Views" where
  "BuildViews U c =
     (let nameRaw = ChunkName c;
          sigRaw = Signature c;
          identTokens = Subtokenize U nameRaw;
          nameH = Humanize nameRaw;
          sigH = Humanize sigRaw;
          ctx = Context c;
          doc = TrimSpace (Docstring c);
          docPart = (if doc \<noteq> [] then ''that does '' @ doc @ '' '' else []);
          summary = TrimSpace
            (TrimSpace (CodeType c) @ '' '' @ TrimSpace nameH @ '' '' @ docPart
             @ ''defined as '' @ TrimSpace sigH
             @ '' module '' @ TrimSpace (Module ctx)
             @ '' file '' @ TrimSpace (FileName ctx)
             @ '' original_name '' @ TrimSpace nameRaw
             @ '' original_signature '' @ TrimSpace sigRaw
             @ '' identifiers '' @ Join (elems identTokens) '' '');
          textView = TokenizeForText summary;
          codeView = TrimSpace (sigRaw @ [CHR 0x0A] @ Snippet ctx)
      in \<lparr>TextView = textView, CodeView = codeView, IdentTokens = identTokens\<rparr>)"

text \<open>
  A token as claim C10 wants it: not empty, and letters, digits and underscores only. The
  tokens emitted so far are the second component of the state of \<open>add\<close>.
\<close>

definition wordToken :: "string \<Rightarrow> bool" where
  "wordToken t = (t \<noteq> [] \<and> list_all isWord t)"

definition wordTokens :: "string set \<times> string list \<Rightarrow> bool" where
  "wordTokens st = list_all wordToken (snd st)"

text \<open>Unicode tables for the examples, which are ASCII and never consult them.\<close>

definition noTables :: Unicode where
  "noTables = \<lparr>ToLowerUnicode = (\<lambda>s. s), SplitUnicode = (\<lambda>s. [s])\<rparr>"

section \<open>Writing the chunks: package output and the main loop\<close>

text \<open>
  The third step of \<^verbatim>\<open>main\<close>: \<^verbatim>\<open>allChunks\<close> starts \<^verbatim>\<open>nil\<close>; a file whose symbols could not be had
  (\<open>None\<close>) is skipped, the chunks of any other are appended.
\<close>

definition collectChunks ::
  "Platform \<Rightarrow> SymbolKinds \<Rightarrow> (string \<times> DocumentSymbol list option) list \<Rightarrow> SemanticChunk slice" where
  "collectChunks P K files =
     foldl (\<lambda>allChunks (file, result).
         case result of
           None \<Rightarrow> allChunks
         | Some symbols \<Rightarrow> go_append_all allChunks (ConvertSymbolsToChunks P K symbols file))
       NilSlice files"

text \<open>
  \<^verbatim>\<open>json.MarshalIndent\<close> on a slice: a \<^verbatim>\<open>nil\<close> slice encodes as \<^verbatim>\<open>null\<close>, an empty one as \<^verbatim>\<open>[]\<close>.
  The text of an array that has elements is the encoder's, taken as the parameter \<open>encode\<close>.
\<close>

definition MarshalIndent :: "(SemanticChunk list \<Rightarrow> string) \<Rightarrow> SemanticChunk slice \<Rightarrow> string" where
  "MarshalIndent encode chunks =
     (case chunks of
        NilSlice \<Rightarrow> ''null''
      | Slice [] \<Rightarrow> ''[]''
      | Slice (c # cs) \<Rightarrow> encode (c # cs))"

datatype WriteError = CreateOutputDirectory | WriteFile

text \<open>
  \<^verbatim>\<open>WriteJSON\<close> returns its error, or \<^verbatim>\<open>nil\<close> after writing: the model returns the error, or
  the bytes written to \<open>outputPath\<close>. \<open>mkdirAll\<close> and \<open>writeFile\<close> say whether \<^verbatim>\<open>os.MkdirAll\<close> and
  \<^verbatim>\<open>os.WriteFile\<close> succeed. The encoder returns no error on a slice of chunks.
\<close>

definition WriteJSON ::
  "Platform \<Rightarrow> (string \<Rightarrow> bool) \<Rightarrow> (string \<Rightarrow> string \<Rightarrow> bool) \<Rightarrow> (SemanticChunk list \<Rightarrow> string)
    \<Rightarrow> SemanticChunk slice \<Rightarrow> string \<Rightarrow> WriteError + string" where
  "WriteJSON P mkdirAll writeFile encode chunks outputPath =
     (let dir = Dir P outputPath in
      if \<not> mkdirAll dir then Inl CreateOutputDirectory
      else
        let data = MarshalIndent encode chunks in
        if \<not> writeFile outputPath data then Inl WriteFile
        else Inr data)"

text \<open>
  The chunk of a method declared inside a class, its line indented, and a tree with nothing
  to extract (a variable), for the examples.
\<close>

definition indentedMethod :: SemanticChunk where
  "indentedMethod =
     \<lparr>ChunkName = ''memberMethod'', Signature = ''void memberMethod()'', CodeType = ''Method'',
      Docstring = [], ChunkLine = 14, LineFrom = 14, LineTo = 14,
      Context =
        \<lparr>Module = ''src'', FilePath = ''src/a.cpp'', FileName = ''a.cpp'',
         StructName = ''TestClass'', Snippet = ''    void memberMethod() {}''\<rparr>\<rparr>"

definition variableOnly :: "DocumentSymbol list" where
  "variableOnly = [DocumentSymbol ''counter'' ''int'' 13 nowhere []]"

section \<open>Properties\<close>

subsection \<open>Snippets\<close>

lemma sint_succ: "sint (i :: go_int) < 2 ^ 63 - 1 \<Longrightarrow> sint (i + 1) = sint i + 1"
proof -
  assume below: "sint i < 2 ^ 63 - 1"
  have lower: "- (2 ^ 63) \<le> sint i"
    using sint_ge [of i] by simp
  have "sint (i + 1) = signed_take_bit 63 (sint i + 1)"
    by (simp add: sint_word_ariths)
  also have "\<dots> = sint i + 1"
    using below lower by (intro signed_take_bit_int_eq_self) simp_all
  finally show ?thesis .
qed

lemma take_drop_nth:
  assumes "s \<le> n" and "n \<le> length xs"
  shows "take (n - s) (drop s xs) = map (\<lambda>i. xs ! i) [s..<n]"
proof (rule nth_equalityI)
  show "length (take (n - s) (drop s xs)) = length (map (\<lambda>i. xs ! i) [s..<n])"
    using assms by simp
next
  fix i
  assume "i < length (take (n - s) (drop s xs))"
  then have "i < n - s" by simp
  then show "take (n - s) (drop s xs) ! i = map (\<lambda>i. xs ! i) [s..<n] ! i"
    using assms by (simp add: add.commute)
qed

lemma map_upt_single:
  assumes "s \<le> e"
  shows "map f [s..<Suc e] = [[]] \<longleftrightarrow> s = e \<and> f s = []"
proof -
  have "[s..<Suc e] = s # [Suc s..<Suc e]"
    using assms by (simp add: upt_conv_Cons del: upt_Suc)
  then show ?thesis
    using assms by (auto simp del: upt_Suc)
qed

lemma Join_empty_iff: "sep \<noteq> [] \<Longrightarrow> Join xs sep = [] \<longleftrightarrow> xs = [] \<or> xs = [[]]"
  by (induction xs sep rule: Join.induct) simp_all

lemma slice_lines:
  assumes len: "length fileLines < 2 ^ 63"
    and lo: "0 \<le> sint (s :: go_int)" and mid: "sint s \<le> sint (e :: go_int)"
    and hi: "sint e < int (length fileLines)"
  shows "take (nat (sint (e + 1 :: go_int)) - nat (sint (s :: go_int))) (drop (nat (sint s)) fileLines)
    = map (\<lambda>i. fileLines ! i) [nat (sint s)..<Suc (nat (sint e))]"
proof -
  have "sint e < 2 ^ 63 - 1"
    using len hi by simp
  then have "sint (e + 1) = sint e + 1"
    by (rule sint_succ)
  moreover have "0 \<le> sint e"
    using lo mid by simp
  ultimately have "nat (sint (e + 1)) = Suc (nat (sint e))"
    by (simp add: nat_add_distrib)
  moreover have "nat (sint s) \<le> nat (sint e)" and "nat (sint e) < length fileLines"
    using lo mid hi by simp_all
  ultimately show ?thesis
    using take_drop_nth [of "nat (sint s)" "Suc (nat (sint e))" fileLines] by simp
qed

text \<open>
  Claim C7, as the code has it. For a range with \<open>0 \<le> start \<le> end < len(fileLines)\<close>,
  \<open>extractSnippet\<close> returns the lines \<open>start\<close> to \<open>end\<close>, both included, joined by one
  newline; for every other range (a negative start, an end at or beyond the number of lines,
  a start greater than the end) it returns the empty string. The result is empty in those
  cases and in one more: a valid range that is a single empty line.
\<close>

theorem extractSnippet_lines:
  assumes "length fileLines < 2 ^ 63"
  shows "(0 \<le> sint (Line (Start rng)) \<and> sint (Line (Start rng)) \<le> sint (Line (End rng))
        \<and> sint (Line (End rng)) < int (length fileLines)
      \<longrightarrow> extractSnippet rng fileLines
          = Join (map (\<lambda>i. fileLines ! i)
              [nat (sint (Line (Start rng)))..<Suc (nat (sint (Line (End rng))))]) [CHR 0x0A])
    \<and> (sint (Line (Start rng)) < 0 \<or> int (length fileLines) \<le> sint (Line (End rng))
        \<or> sint (Line (End rng)) < sint (Line (Start rng))
      \<longrightarrow> extractSnippet rng fileLines = [])
    \<and> (extractSnippet rng fileLines = [] \<longleftrightarrow>
        sint (Line (Start rng)) < 0 \<or> int (length fileLines) \<le> sint (Line (End rng))
        \<or> sint (Line (End rng)) < sint (Line (Start rng))
        \<or> (sint (Line (Start rng)) = sint (Line (End rng))
            \<and> fileLines ! nat (sint (Line (Start rng))) = []))"
proof (cases "0 \<le> sint (Line (Start rng)) \<and> sint (Line (Start rng)) \<le> sint (Line (End rng))
        \<and> sint (Line (End rng)) < int (length fileLines)")
  case True
  let ?s = "nat (sint (Line (Start rng)))" and ?e = "nat (sint (Line (End rng)))"
  let ?lines = "map (\<lambda>i. fileLines ! i) [?s..<Suc ?e]"
  have snippet: "extractSnippet rng fileLines = Join ?lines [CHR 0x0A]"
    using True slice_lines [OF assms, of "Line (Start rng)" "Line (End rng)"]
    by (simp add: extractSnippet_def Let_def del: upt_Suc)
  have order: "?s \<le> ?e"
    using True by arith
  have "?lines = [[]] \<longleftrightarrow> ?s = ?e \<and> fileLines ! ?s = []"
    using order by (rule map_upt_single)
  moreover have "?s = ?e \<longleftrightarrow> sint (Line (Start rng)) = sint (Line (End rng))"
    using True by auto
  moreover have "?lines \<noteq> []"
    using order by (simp del: upt_Suc)
  ultimately have "extractSnippet rng fileLines = [] \<longleftrightarrow>
      sint (Line (Start rng)) = sint (Line (End rng)) \<and> fileLines ! ?s = []"
    using snippet by (simp add: Join_empty_iff del: upt_Suc)
  with True snippet show ?thesis
    by (simp del: upt_Suc)
next
  case False
  then show ?thesis
    by (auto simp: extractSnippet_def Let_def)
qed

theorem extractSnippet_lines_witness:
  "extractSnippet \<lparr>Start = \<lparr>Line = 1, Character = 0\<rparr>, End = \<lparr>Line = 2, Character = 7\<rparr>\<rparr>
      [''int f() {'', ''  return 1;'', ''}'', ''int g;'']
     = ''  return 1;'' @ [CHR 0x0A] @ ''}''
   \<and> extractSnippet \<lparr>Start = \<lparr>Line = 2, Character = 0\<rparr>, End = \<lparr>Line = 1, Character = 0\<rparr>\<rparr>
      [''int f() {'', ''  return 1;'', ''}'', ''int g;''] = []"
  using
    extractSnippet_lines [of "[''int f() {'', ''  return 1;'', ''}'', ''int g;'']"
      "\<lparr>Start = \<lparr>Line = 1, Character = 0\<rparr>, End = \<lparr>Line = 2, Character = 7\<rparr>\<rparr>"]
    extractSnippet_lines [of "[''int f() {'', ''  return 1;'', ''}'', ''int g;'']"
      "\<lparr>Start = \<lparr>Line = 2, Character = 0\<rparr>, End = \<lparr>Line = 1, Character = 0\<rparr>\<rparr>"]
  by (simp add: upt_rec)

text \<open>
  Claim C7 as stated fails: the range from line 0 to line 0 of a file whose only line is
  empty is valid, and the snippet is empty all the same.
\<close>

theorem extractSnippet_empty_valid_range:
  "0 \<le> sint (0 :: go_int) \<and> sint (0 :: go_int) \<le> sint (0 :: go_int)
   \<and> sint (0 :: go_int) < int (length [[] :: string])
   \<and> extractSnippet \<lparr>Start = \<lparr>Line = 0, Character = 0\<rparr>, End = \<lparr>Line = 0, Character = 0\<rparr>\<rparr> [[]]
     = []"
  by (simp add: extractSnippet_def)

subsection \<open>Docstrings\<close>

text \<open>
  Claim C3, as the code has it. When the start line of the symbol is 0, or greater than the
  number of lines, \<open>extractDocstring\<close> returns the empty string. (A start line equal to the
  number of lines is not in this case: the lines above it exist, and are scanned.)
\<close>

theorem extractDocstring_no_line_above:
  assumes "Line (Start (Range symbol)) = 0
    \<or> int (length fileLines) < sint (Line (Start (Range symbol)))"
  shows "extractDocstring symbol fileLines = []"
  using assms by (auto simp: extractDocstring_def Let_def)

theorem extractDocstring_no_line_above_witness:
  "extractDocstring
      (DocumentSymbol ''f'' [] 12 \<lparr>Start = \<lparr>Line = 0, Character = 0\<rparr>, End = \<lparr>Line = 0, Character = 9\<rparr>\<rparr> [])
      [''void f();''] = []
   \<and> extractDocstring
      (DocumentSymbol ''f'' [] 12 \<lparr>Start = \<lparr>Line = 2, Character = 0\<rparr>, End = \<lparr>Line = 2, Character = 9\<rparr>\<rparr> [])
      [''/// doc''] = []"
  using
    extractDocstring_no_line_above [of
      "DocumentSymbol ''f'' [] 12 \<lparr>Start = \<lparr>Line = 0, Character = 0\<rparr>, End = \<lparr>Line = 0, Character = 9\<rparr>\<rparr> []"
      "[''void f();'']"]
    extractDocstring_no_line_above [of
      "DocumentSymbol ''f'' [] 12 \<lparr>Start = \<lparr>Line = 2, Character = 0\<rparr>, End = \<lparr>Line = 2, Character = 9\<rparr>\<rparr> []"
      "[''/// doc'']"]
  by simp

text \<open>
  Claim C3 as stated fails at a start line equal to the number of lines: with one line,
  \<^verbatim>\<open>/// doc\<close>, and a symbol starting at line 1, the docstring is \<^verbatim>\<open>doc\<close>.
\<close>

theorem extractDocstring_start_at_length:
  "int (length [''/// doc'']) \<le> sint (1 :: go_int)
   \<and> extractDocstring
      (DocumentSymbol ''f'' [] 12 \<lparr>Start = \<lparr>Line = 1, Character = 0\<rparr>, End = \<lparr>Line = 1, Character = 9\<rparr>\<rparr> [])
      [''/// doc''] = ''doc''"
  by code_simp

text \<open>
  Claim C8. On the five lines of the example and a symbol starting at line 4, the docstring
  is \<^verbatim>\<open>This is documentation on multiple lines\<close>.
\<close>

theorem extractDocstring_example:
  "extractDocstring
      (DocumentSymbol [] [] 0 \<lparr>Start = \<lparr>Line = 4, Character = 0\<rparr>, End = \<lparr>Line = 0, Character = 0\<rparr>\<rparr> [])
      [''// Regular comment'', ''/// This is documentation'', ''/// on multiple lines'', [],
       ''void function() {}'']
     = ''This is documentation on multiple lines''"
  by code_simp

subsection \<open>The flattener\<close>

lemma elems_go_append: "elems (go_append s x) = elems s @ [x]"
  by (simp add: go_append_def)

lemma enclosingStruct_Cons:
  "enclosingStruct K (a # ancestors) =
     (if Kind a = SymbolKindClass K \<or> Kind a = SymbolKindStruct K then Name a
      else enclosingStruct K ancestors)"
  by (simp add: enclosingStruct_def)

lemma struct_is_extracted:
  "kind = SymbolKindClass K \<or> kind = SymbolKindStruct K \<Longrightarrow> shouldExtractSymbol K kind"
  by (auto simp: shouldExtractSymbol_def)

lemma extracted_simps:
  "extracted K [] = []"
  "extracted K ((a, n) # nodes) =
     (if shouldExtractSymbol K (Kind n) then (a, n) # extracted K nodes else extracted K nodes)"
  "extracted K (xs @ ys) = extracted K xs @ extracted K ys"
  by (simp_all add: extracted_def)

lemma extracted_concat: "extracted K (concat xss) = concat (map (extracted K) xss)"
  by (induction xss) (simp_all add: extracted_simps)

lemma processChildren_concat:
  assumes "\<And>child chunks. child \<in> set children \<Longrightarrow>
    elems (processSymbol P K child filePath fileLines parentStruct chunks) = elems chunks @ f child"
  shows "elems (processChildren P K children filePath fileLines parentStruct chunks)
    = elems chunks @ concat (map f children)"
  using assms by (induction children arbitrary: chunks) simp_all

lemma processSymbol_walk:
  "elems (processSymbol P K symbol filePath fileLines (enclosingStruct K ancestors) chunks)
    = elems chunks @ map (chunkAt P K filePath fileLines) (extracted K (walk ancestors symbol))"
proof (induction symbol arbitrary: ancestors chunks)
  case (DocumentSymbol name detail kind rng children)
  let ?symbol = "DocumentSymbol name detail kind rng children"
  let ?below = "\<lambda>child. map (chunkAt P K filePath fileLines) (extracted K (walk (?symbol # ancestors) child))"
  have below: "elems (processChildren P K children filePath fileLines
        (enclosingStruct K (?symbol # ancestors)) chunks')
      = elems chunks' @ concat (map ?below children)" for chunks'
    by (rule processChildren_concat) (rule DocumentSymbol.IH)
  have rest: "map (chunkAt P K filePath fileLines)
        (extracted K (concat (map (walk (?symbol # ancestors)) children)))
      = concat (map ?below children)"
    by (simp add: extracted_concat map_concat comp_def)
  show ?case
  proof (cases "shouldExtractSymbol K kind")
    case True
    then have "elems (processSymbol P K ?symbol filePath fileLines (enclosingStruct K ancestors) chunks)
        = elems (processChildren P K children filePath fileLines
            (enclosingStruct K (?symbol # ancestors))
            (go_append chunks (makeChunk P K ?symbol filePath fileLines (enclosingStruct K ancestors))))"
      by (simp add: enclosingStruct_Cons)
    also have "\<dots> = elems chunks @ makeChunk P K ?symbol filePath fileLines (enclosingStruct K ancestors)
        # concat (map ?below children)"
      by (simp add: below elems_go_append)
    finally show ?thesis
      using True rest by (simp add: extracted_simps chunkAt_def)
  next
    case False
    then have "\<not> (kind = SymbolKindClass K \<or> kind = SymbolKindStruct K)"
      using struct_is_extracted by blast
    with False have "elems (processSymbol P K ?symbol filePath fileLines (enclosingStruct K ancestors) chunks)
        = elems (processChildren P K children filePath fileLines
            (enclosingStruct K (?symbol # ancestors)) chunks)"
      by (simp add: enclosingStruct_Cons)
    then show ?thesis
      using False rest by (simp add: below extracted_simps)
  qed
qed

lemma foldl_processSymbol:
  "elems (foldl (\<lambda>chunks symbol. processSymbol P K symbol filePath fileLines [] chunks) chunks symbols)
    = elems chunks
      @ map (chunkAt P K filePath fileLines) (extracted K (concat (map (walk []) symbols)))"
proof (induction symbols arbitrary: chunks)
  case Nil
  show ?case by (simp add: extracted_simps)
next
  case (Cons symbol symbols)
  have "elems (processSymbol P K symbol filePath fileLines [] chunks)
      = elems chunks @ map (chunkAt P K filePath fileLines) (extracted K (walk [] symbol))"
    using processSymbol_walk [of P K symbol filePath fileLines "[]" chunks]
    by (simp add: enclosingStruct_def)
  then show ?case
    by (simp add: Cons.IH extracted_simps)
qed

lemma ConvertSymbolsToChunks_walk:
  "elems (ConvertSymbolsToChunks P K symbols filePath)
    = map (chunkAt P K filePath (readFileLines P filePath))
        (extracted K (concat (map (walk []) symbols)))"
  by (simp add: ConvertSymbolsToChunks_def foldl_processSymbol)

lemma length_extracted_walk:
  "length (extracted K (walk ancestors symbol))
    = countNodes (\<lambda>n. shouldExtractSymbol K (Kind n)) symbol"
proof (induction symbol arbitrary: ancestors)
  case (DocumentSymbol name detail kind rng children)
  then show ?case
    by (simp add: extracted_simps extracted_concat length_concat comp_def cong: map_cong)
qed

lemma map_snd_walk: "map snd (walk ancestors symbol) = preorder symbol"
proof (induction symbol arbitrary: ancestors)
  case (DocumentSymbol name detail kind rng children)
  then show ?case
    by (simp add: map_concat comp_def cong: map_cong)
qed

text \<open>
  Claim C4. The number of chunks is the number of nodes, at any depth, whose kind is one of
  Function, Method, Class, Struct, Constructor, Enum, Interface and Namespace: a node of
  another kind gives no chunk, and the nodes below it are counted all the same.
\<close>

theorem ConvertSymbolsToChunks_count:
  "length (elems (ConvertSymbolsToChunks P K symbols filePath))
    = sum_list (map (countNodes (\<lambda>symbol. Kind symbol \<in>
        {SymbolKindFunction K, SymbolKindMethod K, SymbolKindClass K, SymbolKindStruct K,
         SymbolKindConstructor K, SymbolKindEnum K, SymbolKindInterface K,
         SymbolKindNamespace K})) symbols)"
proof -
  have kinds: "(\<lambda>symbol. Kind symbol \<in>
        {SymbolKindFunction K, SymbolKindMethod K, SymbolKindClass K, SymbolKindStruct K,
         SymbolKindConstructor K, SymbolKindEnum K, SymbolKindInterface K,
         SymbolKindNamespace K})
      = (\<lambda>symbol. shouldExtractSymbol K (Kind symbol))"
    by (auto simp: shouldExtractSymbol_def)
  have "length (extracted K (concat (map (walk []) symbols)))
      = sum_list (map (countNodes (\<lambda>symbol. shouldExtractSymbol K (Kind symbol))) symbols)"
    by (simp add: extracted_concat length_concat comp_def length_extracted_walk)
  then show ?thesis
    unfolding kinds by (simp add: ConvertSymbolsToChunks_walk)
qed

theorem ConvertSymbolsToChunks_count_witness:
  "length (elems (ConvertSymbolsToChunks noFiles lspKinds exampleTree ''src/a.cpp'')) = 5"
  using ConvertSymbolsToChunks_count [of noFiles lspKinds exampleTree "''src/a.cpp''"]
  by (simp add: lspKinds_def exampleTree_def)

text \<open>
  Claim C5. Chunk by chunk, \<open>struct_name\<close> is the name of the nearest ancestor of the chunk's
  node that is a class or a struct, and empty when there is none.
\<close>

theorem ConvertSymbolsToChunks_struct_name:
  "map (\<lambda>chunk. (ChunkName chunk, StructName (Context chunk)))
      (elems (ConvertSymbolsToChunks P K symbols filePath))
    = map (\<lambda>(ancestors, symbol). (Name symbol, enclosingStruct K ancestors))
        (filter (\<lambda>(ancestors, symbol). shouldExtractSymbol K (Kind symbol))
          (concat (map (walk []) symbols)))"
  by (simp add: ConvertSymbolsToChunks_walk extracted_def chunkAt_def makeChunk_def comp_def
      case_prod_unfold)

theorem ConvertSymbolsToChunks_struct_name_witness:
  "map (\<lambda>chunk. (ChunkName chunk, StructName (Context chunk)))
      (elems (ConvertSymbolsToChunks noFiles lspKinds exampleTree ''src/a.cpp''))
    = [(''f'', []), (''C'', []), (''N'', ''C''), (''m'', ''C''), (''S'', [])]"
  using ConvertSymbolsToChunks_struct_name [of noFiles lspKinds exampleTree "''src/a.cpp''"]
  by (simp add: lspKinds_def exampleTree_def shouldExtractSymbol_def enclosingStruct_def)

text \<open>
  Claim C6. The chunks are those of the extracted nodes in pre-order: a node before the
  nodes below it, the trees of a list one after the other in the order of the list. (The
  struct name, which depends on the ancestors, is set aside.)
\<close>

theorem ConvertSymbolsToChunks_preorder:
  "map (\<lambda>chunk. chunk\<lparr>Context := (Context chunk)\<lparr>StructName := []\<rparr>\<rparr>)
      (elems (ConvertSymbolsToChunks P K symbols filePath))
    = map (\<lambda>symbol. makeChunk P K symbol filePath (readFileLines P filePath) [])
        (filter (\<lambda>symbol. shouldExtractSymbol K (Kind symbol)) (concat (map preorder symbols)))"
proof -
  let ?nodes = "concat (map (walk []) symbols)"
  let ?p = "\<lambda>symbol. shouldExtractSymbol K (Kind symbol)"
  have "map snd ?nodes = concat (map preorder symbols)"
    by (simp add: map_concat comp_def map_snd_walk)
  then have "filter ?p (concat (map preorder symbols)) = filter ?p (map snd ?nodes)"
    by (rule arg_cong [symmetric])
  also have "\<dots> = map snd (filter (?p \<circ> snd) ?nodes)"
    by (rule filter_map)
  also have "filter (?p \<circ> snd) ?nodes = extracted K ?nodes"
    by (simp add: extracted_def comp_def case_prod_unfold)
  finally have "filter ?p (concat (map preorder symbols)) = map snd (extracted K ?nodes)" .
  then show ?thesis
    by (simp add: ConvertSymbolsToChunks_walk chunkAt_def makeChunk_def comp_def case_prod_unfold)
qed

theorem ConvertSymbolsToChunks_preorder_witness:
  "map ChunkName (elems (ConvertSymbolsToChunks noFiles lspKinds exampleTree ''src/a.cpp''))
    = [''f'', ''C'', ''N'', ''m'', ''S'']"
proof -
  have "map ChunkName (map (\<lambda>chunk. chunk\<lparr>Context := (Context chunk)\<lparr>StructName := []\<rparr>\<rparr>)
      (elems (ConvertSymbolsToChunks noFiles lspKinds exampleTree ''src/a.cpp'')))
    = [''f'', ''C'', ''N'', ''m'', ''S'']"
    unfolding ConvertSymbolsToChunks_preorder
    by (simp add: lspKinds_def exampleTree_def shouldExtractSymbol_def makeChunk_def)
  then show ?thesis
    by (simp add: comp_def)
qed

subsection \<open>Tokens\<close>

lemma isWord_isASCII: "isWord c \<Longrightarrow> isASCII c"
  by (auto simp: isWord_def isASCII_def)

lemma isWord_lowerByte: "isWord c \<Longrightarrow> isWord (lowerByte c)"
  by (auto simp: isWord_def lowerByte_def isUpper_def byte_def)

lemma ToLower_word:
  assumes "list_all isWord t"
  shows "list_all isWord (ToLower U t)" and "length (ToLower U t) = length t"
proof -
  have ascii: "list_all isASCII t"
    using assms by (auto simp: list_all_iff isWord_isASCII)
  show "list_all isWord (ToLower U t)"
    using assms ascii by (auto simp: ToLower_def list_all_iff isWord_lowerByte)
  show "length (ToLower U t) = length t"
    using ascii by (simp add: ToLower_def)
qed

lemma add_wordTokens:
  "wordTokens st \<Longrightarrow> list_all isWord t \<Longrightarrow> wordTokens (add st t)"
  by (simp add: wordTokens_def add_def wordToken_def)

lemma add_both_wordTokens:
  "wordTokens st \<Longrightarrow> list_all isWord t \<Longrightarrow> wordTokens (add (add st t) (ToLower U t))"
  by (simp add: add_wordTokens ToLower_word)

lemma foldl_preserves:
  assumes "I st" and "\<And>st x. I st \<Longrightarrow> x \<in> set xs \<Longrightarrow> I (f st x)"
  shows "I (foldl f st xs)"
  using assms by (induction xs arbitrary: st) simp_all

lemma addParts_wordTokens:
  assumes "wordTokens st" and "\<And>p. p \<in> set parts \<Longrightarrow> list_all isWord p"
  shows "wordTokens (addParts U st parts)"
  unfolding addParts_def
  by (rule foldl_preserves [where I = wordTokens]) (simp_all add: assms add_both_wordTokens)

lemma classOf_pos: "classOf r \<noteq> 0"
  by (simp add: classOf_def)

lemma classLoop_within:
  assumes "\<And>g. g \<in> set runes \<Longrightarrow> g \<noteq> [] \<and> set g \<subseteq> S" and "set rs \<subseteq> S"
    and "runes = [] \<Longrightarrow> lastClass = 0"
  shows "g \<in> set (classLoop lastClass runes rs) \<Longrightarrow> g \<noteq> [] \<and> set g \<subseteq> S"
  using assms
proof (induction lastClass runes rs rule: classLoop.induct)
  case (1 lastClass runes)
  then show ?case by simp
next
  case (2 lastClass runes r rs)
  show ?case
  proof (cases "classOf r = lastClass")
    case True
    then have nonempty: "runes \<noteq> []"
      using "2.prems"(4) classOf_pos by metis
    have "h \<noteq> [] \<and> set h \<subseteq> S" if "h \<in> set (butlast runes @ [last runes @ [r]])" for h
    proof (cases "h = last runes @ [r]")
      case True
      then show ?thesis
        using "2.prems"(2) [of "last runes"] "2.prems"(3) nonempty by simp
    next
      case False
      with that have "h \<in> set runes"
        by (auto dest: in_set_butlastD)
      then show ?thesis
        by (rule "2.prems"(2))
    qed
    moreover have "g \<in> set (classLoop (classOf r) (butlast runes @ [last runes @ [r]]) rs)"
      using "2.prems"(1) True by simp
    ultimately show ?thesis
      using "2.IH"(1) [OF True] "2.prems"(3) by simp
  next
    case False
    have "h \<noteq> [] \<and> set h \<subseteq> S" if "h \<in> set (runes @ [[r]])" for h
      using that "2.prems"(2) [of h] "2.prems"(3) by auto
    moreover have "g \<in> set (classLoop (classOf r) (runes @ [[r]]) rs)"
      using "2.prems"(1) False by simp
    ultimately show ?thesis
      using "2.IH"(2) [OF False] "2.prems"(3) by simp
  qed
qed

lemma upperLowerLoop_within:
  assumes "\<And>j. j < length runes \<Longrightarrow> set (runes ! j) \<subseteq> S"
    and "\<And>j. i \<le> j \<Longrightarrow> j < length runes \<Longrightarrow> runes ! j \<noteq> []"
  shows "g \<in> set (upperLowerLoop i runes) \<Longrightarrow> set g \<subseteq> S"
  using assms
proof (induction i runes rule: upperLowerLoop.induct)
  case (1 i runes)
  show ?case
  proof (cases "i + 1 < length runes")
    case inside: True
    show ?thesis
    proof (cases "isUpper (hd (runes ! i)) \<and> isLower (hd (runes ! (i + 1)))")
      case True
      let ?moved = "runes[i + 1 := last (runes ! i) # runes ! (i + 1), i := butlast (runes ! i)]"
      have here: "runes ! i \<noteq> []"
        using "1.prems"(3) [of i] inside by simp
      have within: "set (?moved ! j) \<subseteq> S" if "j < length ?moved" for j
      proof -
        have "set (butlast (runes ! i)) \<subseteq> S"
          using "1.prems"(2) [of i] inside by (auto dest: in_set_butlastD)
        moreover have "set (last (runes ! i) # runes ! (i + 1)) \<subseteq> S"
          using "1.prems"(2) [of i] "1.prems"(2) [of "i + 1"] here inside
            last_in_set [OF here] by auto
        moreover have "set (runes ! j) \<subseteq> S"
          using "1.prems"(2) [of j] that by simp
        ultimately show ?thesis
          using that inside by (cases "j = i"; cases "j = Suc i") simp_all
      qed
      have nonempty: "?moved ! j \<noteq> []" if "i + 1 \<le> j" and "j < length ?moved" for j
        using that "1.prems"(3) [of j] by (simp add: nth_list_update)
      have "g \<in> set (upperLowerLoop (i + 1) ?moved)"
        using "1.prems"(1) inside True by (subst (asm) upperLowerLoop.simps) simp
      then show ?thesis
        using "1.IH"(1) [OF inside True] within nonempty by blast
    next
      case False
      have "g \<in> set (upperLowerLoop (i + 1) runes)"
        using "1.prems"(1) inside False by (subst (asm) upperLowerLoop.simps) auto
      then show ?thesis
        using "1.IH"(2) [OF inside False] "1.prems"(2) "1.prems"(3) by simp
    qed
  next
    case False
    then have "g \<in> set runes"
      using "1.prems"(1) by (subst (asm) upperLowerLoop.simps) simp
    then show ?thesis
      using "1.prems"(2) by (auto simp: in_set_conv_nth)
  qed
qed

lemma camelcase_Split_word:
  assumes "list_all isWord u" and "p \<in> set (camelcase_Split U u)"
  shows "list_all isWord p"
proof -
  have ascii: "list_all isASCII u"
    using assms(1) by (auto simp: list_all_iff isWord_isASCII)
  let ?runes = "classLoop 0 [] u"
  have groups: "g \<noteq> [] \<and> set g \<subseteq> set u" if "g \<in> set ?runes" for g
    using that by (rule classLoop_within [rotated -1]) simp_all
  have "p \<in> set (upperLowerLoop 0 ?runes)"
    using assms(2) ascii by (simp add: camelcase_Split_def)
  then have "set p \<subseteq> set u"
    by (rule upperLowerLoop_within [rotated -1]) (use groups in \<open>simp_all add: nth_mem\<close>)
  then show ?thesis
    using assms(1) by (auto simp: list_all_iff)
qed


lemma fieldsFrom_within:
  "u \<in> set (fieldsFrom f field cs) \<Longrightarrow> set u \<subseteq> set field \<union> set cs"
proof (induction f field cs rule: fieldsFrom.induct)
  case (1 f field)
  then show ?case by (simp split: if_splits)
next
  case (2 f field c cs)
  then show ?case by (fastforce split: if_splits)
qed

lemma FieldsFunc_word:
  assumes "list_all isWord tok" and "u \<in> set (FieldsFunc tok f)"
  shows "list_all isWord u"
  using assms fieldsFrom_within [of u f "[]" tok] by (auto simp: FieldsFunc_def list_all_iff)

lemma re_Split_last:
  assumes "dropWhile (\<lambda>c. \<not> sep c) s = []"
  shows "re_Split sep s = [takeWhile (\<lambda>c. \<not> sep c) s]"
proof -
  have "re_Split sep s =
     (let piece = takeWhile (\<lambda>c. \<not> sep c) s; rest = dropWhile (\<lambda>c. \<not> sep c) s in
      if rest = [] then [piece] else piece # re_Split sep (dropWhile sep rest))"
    by (rule re_Split.simps)
  then show ?thesis
    unfolding Let_def by (simp only: assms if_True simp_thms)
qed

lemma re_Split_more:
  assumes "dropWhile (\<lambda>c. \<not> sep c) s \<noteq> []"
  shows "re_Split sep s = takeWhile (\<lambda>c. \<not> sep c) s
    # re_Split sep (dropWhile sep (dropWhile (\<lambda>c. \<not> sep c) s))"
proof -
  have "re_Split sep s =
     (let piece = takeWhile (\<lambda>c. \<not> sep c) s; rest = dropWhile (\<lambda>c. \<not> sep c) s in
      if rest = [] then [piece] else piece # re_Split sep (dropWhile sep rest))"
    by (rule re_Split.simps)
  then show ?thesis
    unfolding Let_def by (simp only: assms if_False)
qed

lemma re_Split_pieces:
  "p \<in> set (re_Split sep s) \<Longrightarrow> list_all (\<lambda>c. \<not> sep c) p"
proof (induction sep s rule: re_Split.induct)
  case (1 sep s)
  have piece: "list_all (\<lambda>c. \<not> sep c) (takeWhile (\<lambda>c. \<not> sep c) s)"
    by (auto simp: list_all_iff dest: set_takeWhileD)
  show ?case
  proof (cases "dropWhile (\<lambda>c. \<not> sep c) s = []")
    case True
    have "p = takeWhile (\<lambda>c. \<not> sep c) s"
      using "1.prems" unfolding re_Split_last [OF True] by simp
    then show ?thesis
      using piece by simp
  next
    case False
    have "p = takeWhile (\<lambda>c. \<not> sep c) s
        \<or> p \<in> set (re_Split sep (dropWhile sep (dropWhile (\<lambda>c. \<not> sep c) s)))"
      using "1.prems" unfolding re_Split_more [OF False] by simp
    then show ?thesis
      using piece "1.IH" [OF refl refl False] by auto
  qed
qed

lemma splitAlphaNum_word:
  assumes "tok \<in> set (splitAlphaNum s)"
  shows "list_all isWord tok"
  using assms re_Split_pieces [of tok nonWord s]
  by (simp add: splitAlphaNum_def filterEmpty_def nonWord_def)

lemma addFields_wordTokens:
  assumes "wordTokens st" and "\<And>u. u \<in> set us \<Longrightarrow> list_all isWord u"
  shows "wordTokens (addFields U st us)"
  unfolding addFields_def
proof (rule foldl_preserves [where I = wordTokens])
  show "wordTokens st"
    by (rule assms(1))
next
  fix st' u
  assume st': "wordTokens st'" and u: "u \<in> set us"
  have "wordTokens (addParts U st' (camelcase_Split U u))"
    using st' by (rule addParts_wordTokens) (rule camelcase_Split_word [OF assms(2) [OF u]])
  with st' show "wordTokens (if u = [] then st' else addParts U st' (camelcase_Split U u))"
    by simp
qed

lemma addTokens_wordTokens:
  assumes "wordTokens st" and "\<And>tok. tok \<in> set rawTokens \<Longrightarrow> list_all isWord tok"
  shows "wordTokens (addTokens U st rawTokens)"
  unfolding addTokens_def
proof (rule foldl_preserves [where I = wordTokens])
  show "wordTokens st"
    by (rule assms(1))
next
  fix st' tok
  assume st': "wordTokens st'" and tok: "tok \<in> set rawTokens"
  have word: "list_all isWord tok"
    by (rule assms(2) [OF tok])
  have "wordTokens (add (add st' tok) (ToLower U tok))"
    using st' word by (rule add_both_wordTokens)
  then show "wordTokens (addFields U (add (add st' tok) (ToLower U tok))
      (FieldsFunc tok (\<lambda>r. r = CHR ''_'')))"
    by (rule addFields_wordTokens) (rule FieldsFunc_word [OF word])
qed

text \<open>
  Claim C10. Every token \<open>Subtokenize\<close> returns is non-empty and made of the bytes of
  \<^verbatim>\<open>[A-Za-z0-9_]\<close> only, whatever the input and whatever the Unicode tables.
\<close>

theorem Subtokenize_word_tokens:
  "list_all (\<lambda>t. t \<noteq> [] \<and> list_all isWord t) (elems (Subtokenize U s))"
proof (cases "s = []")
  case True
  then show ?thesis
    by (simp add: Subtokenize_def)
next
  case False
  have "wordTokens (addTokens U ({}, []) (splitAlphaNum (repl_Replace s)))"
    by (rule addTokens_wordTokens) (simp_all add: wordTokens_def splitAlphaNum_word)
  then show ?thesis
    using False by (simp add: Subtokenize_def wordTokens_def wordToken_def [abs_def])
qed

theorem Subtokenize_word_tokens_witness:
  "elems (Subtokenize noTables ''a_b::cD.e->f-g h9'')
     = [''a_b'', ''a'', ''b'', ''cD'', ''cd'', ''c'', ''D'', ''d'', ''e'', ''f'', ''g'', ''h9'',
        ''h'', ''9'']
   \<and> list_all (\<lambda>t. t \<noteq> [] \<and> list_all isWord t)
        (elems (Subtokenize noTables ''a_b::cD.e->f-g h9''))"
proof -
  have "elems (Subtokenize noTables ''a_b::cD.e->f-g h9'')
     = [''a_b'', ''a'', ''b'', ''cD'', ''cd'', ''c'', ''D'', ''d'', ''e'', ''f'', ''g'', ''h9'',
        ''h'', ''9'']"
    by code_simp
  then show ?thesis
    using Subtokenize_word_tokens [of noTables "''a_b::cD.e->f-g h9''"] by simp
qed

text \<open>
  Claim C9. \<open>Subtokenize\<close> of \<^verbatim>\<open>QuaGzipFile\<close> is the eight tokens named, in this order and
  nothing else: it contains each of them, and no token twice.
\<close>

theorem Subtokenize_QuaGzipFile:
  "elems (Subtokenize U ''QuaGzipFile'')
     = [''QuaGzipFile'', ''quagzipfile'', ''Qua'', ''qua'', ''Gzip'', ''gzip'', ''File'', ''file'']
   \<and> set [''QuaGzipFile'', ''quagzipfile'', ''Qua'', ''qua'', ''Gzip'', ''gzip'', ''File'', ''file'']
     \<subseteq> set (elems (Subtokenize U ''QuaGzipFile''))
   \<and> distinct (elems (Subtokenize U ''QuaGzipFile''))"
proof -
  have "elems (Subtokenize U ''QuaGzipFile'')
     = [''QuaGzipFile'', ''quagzipfile'', ''Qua'', ''qua'', ''Gzip'', ''gzip'', ''File'', ''file'']"
    by code_simp
  then show ?thesis
    by simp
qed

subsection \<open>The code view\<close>

lemma trimBy_append:
  assumes "trimBy p1 p2 p3 x \<noteq> []"
    and "\<forall>a. \<not> p2 a n" and "\<forall>a b. \<not> p3 a b n" and "\<forall>a b. \<not> p3 a n b"
  shows "trimBy p1 p2 p3 (x @ n # y) = trimBy p1 p2 p3 x @ n # y"
  using assms
proof (induction p1 p2 p3 x rule: trimBy.induct)
  case (1 p1 p2 p3 a b c s)
  then show ?case
    by (auto split: if_splits)
next
  case (2 p1 p2 p3 a b)
  then show ?case
    by (cases y) (auto split: if_splits)
next
  case (3 p1 p2 p3 a)
  then show ?case
    by (cases y; cases "tl y") (auto split: if_splits)
next
  case (4 p1 p2 p3)
  then show ?case by simp
qed

lemma newline_no_space2: "\<not> space2 a (CHR 0x0A)" "\<not> space2 (CHR 0x0A) a"
  by (simp_all add: space2_def byte_def)

lemma newline_no_space3:
  "\<not> space3 a b (CHR 0x0A)" "\<not> space3 a (CHR 0x0A) b" "\<not> space3 (CHR 0x0A) a b"
  by (simp_all add: space3_def byte_def)

lemma TrimSpace_around_newline:
  assumes "TrimLeftSpace a \<noteq> []" and "TrimRightSpace b \<noteq> []"
  shows "TrimSpace (a @ [CHR 0x0A] @ b) = TrimLeftSpace a @ [CHR 0x0A] @ TrimRightSpace b"
proof -
  have left: "TrimLeftSpace (a @ CHR 0x0A # b) = TrimLeftSpace a @ CHR 0x0A # b"
    unfolding TrimLeftSpace_def
    using assms(1) by (intro trimBy_append) (simp_all add: TrimLeftSpace_def newline_no_space2 newline_no_space3)
  let ?p2 = "\<lambda>b a. space2 a b" and ?p3 = "\<lambda>c b a. space3 a b c"
  have "trimBy asciiSpace ?p2 ?p3 (rev b) \<noteq> []"
    using assms(2) by (auto simp: TrimRightSpace_def)
  then have "trimBy asciiSpace ?p2 ?p3 (rev b @ CHR 0x0A # rev (TrimLeftSpace a))
      = trimBy asciiSpace ?p2 ?p3 (rev b) @ CHR 0x0A # rev (TrimLeftSpace a)"
    by (intro trimBy_append) (simp_all add: newline_no_space2 newline_no_space3)
  then have "TrimRightSpace (TrimLeftSpace a @ CHR 0x0A # b)
      = TrimLeftSpace a @ CHR 0x0A # TrimRightSpace b"
    by (simp add: TrimRightSpace_def)
  with left show ?thesis
    by (simp add: TrimSpace_def)
qed

text \<open>
  Claim C1, as the code has it. \<open>code_view\<close> is the signature, a newline and the snippet,
  joined first and trimmed as one string. When neither the signature nor the snippet is
  blank, that is the signature without its leading white space, the newline, and the snippet
  without its trailing white space: the white space on the two sides of the newline stays.
\<close>

theorem BuildViews_code_view:
  "CodeView (BuildViews U c) = TrimSpace (Signature c @ [CHR 0x0A] @ Snippet (Context c))
   \<and> (TrimLeftSpace (Signature c) \<noteq> [] \<and> TrimRightSpace (Snippet (Context c)) \<noteq> []
      \<longrightarrow> CodeView (BuildViews U c)
          = TrimLeftSpace (Signature c) @ [CHR 0x0A] @ TrimRightSpace (Snippet (Context c)))"
  by (simp add: BuildViews_def Let_def TrimSpace_around_newline del: append.simps)

theorem BuildViews_code_view_witness:
  "TrimLeftSpace (Signature indentedMethod) \<noteq> []
   \<and> TrimRightSpace (Snippet (Context indentedMethod)) \<noteq> []
   \<and> CodeView (BuildViews noTables indentedMethod)
     = ''void memberMethod()'' @ [CHR 0x0A] @ ''    void memberMethod() {}''"
proof -
  have left: "TrimLeftSpace (Signature indentedMethod) = ''void memberMethod()''"
    by code_simp
  have right: "TrimRightSpace (Snippet (Context indentedMethod)) = ''    void memberMethod() {}''"
    by code_simp
  have present: "TrimLeftSpace (Signature indentedMethod) \<noteq> []
      \<and> TrimRightSpace (Snippet (Context indentedMethod)) \<noteq> []"
    by (simp add: left right)
  have "CodeView (BuildViews noTables indentedMethod)
      = TrimLeftSpace (Signature indentedMethod) @ [CHR 0x0A]
        @ TrimRightSpace (Snippet (Context indentedMethod))"
    by (rule BuildViews_code_view [of noTables indentedMethod, THEN conjunct2, THEN mp, OF present])
  then show ?thesis
    using present by (simp only: left right simp_thms)
qed

text \<open>
  Claim C1 as stated fails on a snippet whose first line is indented: the indentation is
  kept, where \<open>trim(snippet)\<close> would drop it.
\<close>

theorem BuildViews_code_view_keeps_indentation:
  "CodeView (BuildViews noTables indentedMethod)
     \<noteq> TrimSpace (Signature indentedMethod) @ [CHR 0x0A]
       @ TrimSpace (Snippet (Context indentedMethod))"
  by code_simp

subsection \<open>The output file\<close>

text \<open>
  Claim C2 fails on the code. A tree with nothing to extract leaves \<^verbatim>\<open>chunks\<close> \<^verbatim>\<open>nil\<close>, the main
  loop keeps \<^verbatim>\<open>allChunks\<close> \<^verbatim>\<open>nil\<close>, and \<open>WriteJSON\<close> writes \<^verbatim>\<open>null\<close>. The empty slice of the
  package's own test, which is not \<^verbatim>\<open>nil\<close>, gives \<^verbatim>\<open>[]\<close>.
\<close>

theorem WriteJSON_no_chunks_null:
  "ConvertSymbolsToChunks noFiles lspKinds variableOnly ''src/a.cpp'' = NilSlice
   \<and> collectChunks noFiles lspKinds [(''src/a.cpp'', Some variableOnly)] = NilSlice
   \<and> WriteJSON noFiles (\<lambda>dir. True) (\<lambda>path data. True) encode
        (collectChunks noFiles lspKinds [(''src/a.cpp'', Some variableOnly)]) ''chunks.json''
     = Inr ''null''
   \<and> WriteJSON noFiles (\<lambda>dir. True) (\<lambda>path data. True) encode (Slice []) ''chunks.json''
     = Inr ''[]''"
proof -
  have none: "ConvertSymbolsToChunks noFiles lspKinds variableOnly ''src/a.cpp'' = NilSlice"
    by (simp add: ConvertSymbolsToChunks_def variableOnly_def shouldExtractSymbol_def
        lspKinds_def)
  then have "collectChunks noFiles lspKinds [(''src/a.cpp'', Some variableOnly)] = NilSlice"
    by (simp add: collectChunks_def go_append_all_def)
  with none show ?thesis
    by (simp add: WriteJSON_def MarshalIndent_def)
qed

end
